theory Spec2Isabelle
  imports Complex_Main "HOL-Library.Char_ord" "HOL-Library.List_Lexorder" "HOL-Library.Log_Nat"
begin

section \<open>Data model of \<open>scheduler/models/scheduled_job.py\<close>\<close>

text \<open>
  An instant is a number of seconds since the epoch. A Python \<open>datetime\<close> is a whole
  number of microseconds, so every instant of the program is a rational; the arithmetic
  on \<open>timestamp()\<close> values, which the source carries out on floats, is exact here.
  One call of an operation happens at one instant \<open>now\<close>: each \<open>timezone.now()\<close>
  inside the call reads that instant (the \<open>reference_now\<close> of the specification).
  \<open>RepeatableJob.ready_for_schedule\<close> reads the clock up to three times, on a
  \<open>scheduled_time\<close> with a time zone and on float timestamps: the last section of the
  definitions models its lines as they are written, and what is claimed of them is
  settled on that model.
\<close>

type_synonym time = rat

text \<open>The three concrete models; \<open>JOB_TYPE\<close> is the class attribute of each.\<close>

datatype job_kind = ScheduledJob | RepeatableJob | CronJob

text \<open>\<open>RepeatableJob.UNITS\<close>.\<close>

datatype units = seconds | minutes | hours | days | weeks

text \<open>The exceptions the modelled code can raise.\<close>

datatype error =
    TypeError            \<comment> \<open>\<open>None < datetime\<close>\<close>
  | ZeroDivisionError    \<comment> \<open>\<open>float / 0.0\<close>\<close>
  | AttributeError       \<comment> \<open>the queue is handed something that is not a datetime\<close>
  | ValueError           \<comment> \<open>the cron string does not parse\<close>
  | ValidationError
  | OverflowError        \<comment> \<open>a \<open>timedelta\<close> or a \<open>datetime\<close> out of range\<close>

text \<open>
  The fields of \<open>BaseJob\<close>, \<open>ScheduledTimeMixin\<close>, \<open>RepeatableJob\<close> and \<open>CronJob\<close> in
  one record, tagged with the model it is an instance of. \<open>pk\<close> is the primary key
  (\<open>self.id\<close>), \<open>None\<close> until the first save. \<open>scheduled_time\<close> is an option because the
  attribute of an instance that was never saved can be \<open>None\<close>, and the source tests for it.
  The fields that play no part in scheduling are left out: the callable and its
  arguments, the queue's name, and the timestamps of \<open>TimeStampedModel\<close>.
\<close>

record job =
  JOB_TYPE :: job_kind
  pk :: "nat option"
  name :: string
  enabled :: bool
  job_id :: "string option"
  repeat :: "nat option"
  at_front :: "bool option"
  timeout :: "int option"
  result_ttl :: "int option"
  scheduled_time :: "time option"
  interval :: nat
  interval_unit :: units
  cron_string :: string

text \<open>
  What \<open>enqueue_at\<close> is called with: the instant, \<open>args = (JOB_TYPE, id)\<close>, and the
  keyword arguments that \<open>enqueue_args\<close> builds. A key the source leaves out of the
  dictionary is \<open>None\<close>.
\<close>

record enqueue_kwargs =
  meta_repeat :: "nat option"
  meta_job_type :: job_kind
  meta_interval :: "nat option"
  kw_at_front :: "bool option"
  kw_job_timeout :: "int option"
  kw_result_ttl :: "int option"

text \<open>The calls that reach the queue and the storage layer, in the order they are made.\<close>

datatype event =
    Enqueue_at time "job_kind \<times> nat option" enqueue_kwargs string
  | Queue_remove string
  | Registry_remove string
  | Db_save job
  | Db_delete job

text \<open>
  The collaborators of the models: the queue that \<open>get_queue(self.queue)\<close> returns, with
  the ids waiting in it and the ids in its \<open>scheduled_job_registry\<close>; the number of job
  ids the queue has handed out; the stored rows; and the trace of calls made so far.
  All records use one queue, and it is configured.
\<close>

record world =
  queue_job_ids :: "string list"
  scheduled_job_registry :: "string list"
  issued :: nat
  rows :: "job list"
  trace :: "event list"

section \<open>The queue and the storage layer\<close>

text \<open>
  The queue with its registry and the storage layer are collaborators outside the
  modelled file. The definitions of this section follow the interface the specification
  gives them: \<open>enqueue_at(instant, ...) -> entry_id\<close>, \<open>remove(entry_id)\<close>, the membership
  test \<open>entry_id in scheduled_entry_ids()\<close>, and create, read, update and delete of job
  records with "find by id".
\<close>

text \<open>
  Modelled from the spec: the id of a new queue entry. The queue's library makes it with
  \<open>str(uuid4())\<close>: a string that is never empty, different for every job created.
\<close>

definition new_job_id :: "nat \<Rightarrow> string" where
  "new_job_id n = CHR ''j'' # replicate n (CHR ''+'')"

text \<open>
  Modelled from the spec: \<open>queue.enqueue_at(schedule_time, run_job, args=..., **kwargs)\<close>
  creates a queue entry, puts its id into the scheduled-job registry and returns it. The
  registry needs a datetime; anything else (the empty string that \<open>utc(None)\<close> yields)
  has no \<open>tzinfo\<close>.
\<close>

definition enqueue_at ::
    "time option \<Rightarrow> job_kind \<times> nat option \<Rightarrow> enqueue_kwargs \<Rightarrow> world \<Rightarrow> error + string \<times> world" where
  "enqueue_at at_time args kwargs w =
     (case at_time of
        None \<Rightarrow> Inl AttributeError
      | Some t \<Rightarrow>
          (let jid = new_job_id (issued w)
           in Inr (jid,
                   w\<lparr>scheduled_job_registry := scheduled_job_registry w @ [jid],
                     issued := Suc (issued w),
                     trace := trace w @ [Enqueue_at t args kwargs jid]\<rparr>)))"

text \<open>
  Modelled from the spec: \<open>queue.remove(job_id)\<close> and
  \<open>queue.scheduled_job_registry.remove(job_id)\<close> take the id out of the pending queue and
  out of the registry; an id that is not there is no error.
\<close>

definition queue_remove :: "string \<Rightarrow> world \<Rightarrow> world" where
  "queue_remove jid w =
     w\<lparr>queue_job_ids := removeAll jid (queue_job_ids w),
       trace := trace w @ [Queue_remove jid]\<rparr>"

definition registry_remove :: "string \<Rightarrow> world \<Rightarrow> world" where
  "registry_remove jid w =
     w\<lparr>scheduled_job_registry := removeAll jid (scheduled_job_registry w),
       trace := trace w @ [Registry_remove jid]\<rparr>"

text \<open>
  Modelled from the spec: \<open>super().save()\<close> of the storage layer. A record without a
  primary key is inserted under a new one, a record with one replaces the row of that
  model with that key (and is inserted when there is none). The instance carries its key
  afterwards.
\<close>

definition same_row :: "job \<Rightarrow> job \<Rightarrow> bool" where
  "same_row r x \<longleftrightarrow> JOB_TYPE x = JOB_TYPE r \<and> pk x = pk r"

definition next_pk :: "job list \<Rightarrow> nat" where
  "next_pk rs = Suc (fold max (map (\<lambda>x. case pk x of None \<Rightarrow> 0 | Some k \<Rightarrow> k) rs) 0)"

definition db_save :: "job \<Rightarrow> world \<Rightarrow> job \<times> world" where
  "db_save r w =
     (let r' = (case pk r of None \<Rightarrow> r\<lparr>pk := Some (next_pk (rows w))\<rparr> | Some _ \<Rightarrow> r)
      in (r', w\<lparr>rows := filter (\<lambda>x. \<not> same_row r' x) (rows w) @ [r'],
                trace := trace w @ [Db_save r']\<rparr>))"

text \<open>
  Modelled from the spec: \<open>super().delete()\<close> of the storage layer. The row goes, and the
  instance loses its key.
\<close>

definition db_delete :: "job \<Rightarrow> world \<Rightarrow> job \<times> world" where
  "db_delete r w =
     (r\<lparr>pk := None\<rparr>,
      w\<lparr>rows := filter (\<lambda>x. \<not> same_row r x) (rows w),
        trace := trace w @ [Db_delete r]\<rparr>)"


section \<open>The models\<close>

subsection \<open>\<open>BaseJob\<close>\<close>

text \<open>\<open>is_scheduled\<close>: \<open>not self.job_id\<close> holds of \<open>None\<close> and of the empty string.\<close>

definition is_scheduled :: "job \<Rightarrow> world \<Rightarrow> bool" where
  "is_scheduled r w =
     (case job_id r of
        None \<Rightarrow> False
      | Some j \<Rightarrow> if j = [] then False else j \<in> set (scheduled_job_registry w))"

text \<open>
  \<open>ScheduledJob\<close> sets the class attribute \<open>repeat = None\<close>, which removes the field:
  \<open>self.repeat\<close> of a \<open>ScheduledJob\<close> is \<open>None\<close>.
\<close>

definition self_repeat :: "job \<Rightarrow> nat option" where
  "self_repeat r = (if JOB_TYPE r = ScheduledJob then None else repeat r)"

text \<open>
  \<open>RepeatableJob.interval_seconds\<close>: \<open>timedelta(**{unit: interval}).total_seconds()\<close>,
  for an interval that a \<open>timedelta\<close> can hold.
\<close>

definition interval_seconds :: "job \<Rightarrow> nat" where
  "interval_seconds r =
     interval r *
       (case interval_unit r of
          seconds \<Rightarrow> 1 | minutes \<Rightarrow> 60 | hours \<Rightarrow> 3600 | days \<Rightarrow> 86400 | weeks \<Rightarrow> 604800)"

text \<open>
  \<open>enqueue_args\<close>, with the entry \<open>meta['interval']\<close> that \<open>RepeatableJob\<close> adds.
  \<open>at_front\<close> and \<open>job_timeout\<close> are passed when the field is truthy, \<open>result_ttl\<close> when
  it is not \<open>None\<close>.
\<close>

definition enqueue_args :: "job \<Rightarrow> enqueue_kwargs" where
  "enqueue_args r =
     \<lparr>meta_repeat = self_repeat r,
      meta_job_type = JOB_TYPE r,
      meta_interval = (if JOB_TYPE r = RepeatableJob then Some (interval_seconds r) else None),
      kw_at_front = (if at_front r = Some True then at_front r else None),
      kw_job_timeout = (case timeout r of None \<Rightarrow> None | Some t \<Rightarrow> if t = 0 then None else Some t),
      kw_result_ttl = result_ttl r\<rparr>"

text \<open>\<open>BaseJob.ready_for_schedule\<close>.\<close>

definition ready_for_schedule_BaseJob :: "job \<Rightarrow> world \<Rightarrow> bool" where
  "ready_for_schedule_BaseJob r w =
     (if is_scheduled r w then False
      else if \<not> enabled r then False
      else True)"

subsection \<open>\<open>ScheduledJob\<close>\<close>

definition ready_for_schedule_ScheduledJob :: "time \<Rightarrow> job \<Rightarrow> world \<Rightarrow> bool" where
  "ready_for_schedule_ScheduledJob now r w =
     (if ready_for_schedule_BaseJob r w = False then False
      else if scheduled_time r \<noteq> None \<and> the (scheduled_time r) < now then False
      else True)"

subsection \<open>\<open>RepeatableJob\<close>\<close>

text \<open>
  Lines 283 to 286 of the source, entered when \<open>scheduled_time < now\<close>: the number of
  intervals between the scheduled time and now, rounded up, and the advance by that many
  intervals when the repeats left allow it. Dividing by an interval of zero seconds raises.
  Here they are taken on the time line, with the one \<open>now\<close> of the call and exact
  arithmetic, which is what the operations on whole records below build on; the last
  section of the definitions has the same lines with the clock, the zones and the floats
  of the source.
\<close>

definition gap_of :: "time \<Rightarrow> time \<Rightarrow> nat \<Rightarrow> int" where
  "gap_of now t i = \<lceil>(now - t) / of_nat i\<rceil>"

definition catch_up :: "time \<Rightarrow> time \<Rightarrow> job \<Rightarrow> error + job" where
  "catch_up now t r =
     (if interval_seconds r = 0 then Inl ZeroDivisionError
      else
        (let gap = gap_of now t (interval_seconds r)
         in if repeat r = None \<or> int (the (repeat r)) \<ge> gap
            then Inr (r\<lparr>scheduled_time := Some (t + of_int (int (interval_seconds r) * gap)),
                        repeat := (case repeat r of
                                     None \<Rightarrow> None
                                   | Some n \<Rightarrow> Some (nat (int n - gap)))\<rparr>)
            else Inr r))"

text \<open>
  \<open>RepeatableJob.ready_for_schedule\<close>. It returns the answer together with the record,
  which it may have advanced. Comparing a \<open>scheduled_time\<close> of \<open>None\<close> with a datetime
  raises.
\<close>

definition ready_for_schedule_RepeatableJob :: "time \<Rightarrow> job \<Rightarrow> world \<Rightarrow> error + bool \<times> job" where
  "ready_for_schedule_RepeatableJob now r w =
     (if ready_for_schedule_BaseJob r w = False then Inr (False, r)
      else
        (case scheduled_time r of
           None \<Rightarrow> Inl TypeError
         | Some t \<Rightarrow>
             (case (if t < now then catch_up now t r else Inr r) of
                Inl e \<Rightarrow> Inl e
              | Inr r' \<Rightarrow>
                  (case scheduled_time r' of
                     None \<Rightarrow> Inl TypeError
                   | Some t' \<Rightarrow> if t' < now then Inr (False, r') else Inr (True, r')))))"

text \<open>
  \<open>RepeatableJob.clean_result_ttl\<close>. The conjuncts are Python truth values: a
  \<open>result_ttl\<close> of \<open>None\<close> or \<open>0\<close> and a \<open>repeat\<close> of \<open>None\<close> or \<open>0\<close> are false.
\<close>

definition truthy_int :: "int option \<Rightarrow> bool" where
  "truthy_int v = (case v of None \<Rightarrow> False | Some n \<Rightarrow> n \<noteq> 0)"

definition truthy_nat :: "nat option \<Rightarrow> bool" where
  "truthy_nat v = (case v of None \<Rightarrow> False | Some n \<Rightarrow> n \<noteq> 0)"

definition clean_result_ttl :: "job \<Rightarrow> error + unit" where
  "clean_result_ttl r =
     (if truthy_int (result_ttl r) \<and> result_ttl r \<noteq> Some (- 1)
         \<and> the (result_ttl r) < int (interval_seconds r) \<and> truthy_nat (repeat r)
      then Inl ValidationError
      else Inr ())"

subsection \<open>The operations of every model\<close>

text \<open>\<open>ready_for_schedule\<close>, dispatched on the model; \<open>CronJob\<close> inherits \<open>BaseJob\<close>'s.\<close>

definition ready_for_schedule :: "time \<Rightarrow> job \<Rightarrow> world \<Rightarrow> error + bool \<times> job" where
  "ready_for_schedule now r w =
     (case JOB_TYPE r of
        ScheduledJob \<Rightarrow> Inr (ready_for_schedule_ScheduledJob now r w, r)
      | RepeatableJob \<Rightarrow> ready_for_schedule_RepeatableJob now r w
      | CronJob \<Rightarrow> Inr (ready_for_schedule_BaseJob r w, r))"

text \<open>
  \<open>_schedule_time\<close>: \<open>utc(self.scheduled_time)\<close> for the two models with a scheduled time
  (the same instant; \<open>None\<close> stands for what \<open>utc\<close> makes of \<open>None\<close>, which is no datetime),
  and \<open>tools.get_next_cron_time(self.cron_string)\<close> for \<open>CronJob\<close>. That function is not
  part of the modelled file and is a parameter: from a cron string and the current
  instant, the next instant or the error of a string that does not parse.
\<close>

definition schedule_time ::
    "(string \<Rightarrow> time \<Rightarrow> error + time) \<Rightarrow> time \<Rightarrow> job \<Rightarrow> error + time option" where
  "schedule_time get_next_cron_time now r =
     (case JOB_TYPE r of
        CronJob \<Rightarrow>
          (case get_next_cron_time (cron_string r) now of Inl e \<Rightarrow> Inl e | Inr t \<Rightarrow> Inr (Some t))
      | _ \<Rightarrow> Inr (scheduled_time r))"

text \<open>\<open>BaseJob.schedule\<close>: the answer, the record and the world afterwards.\<close>

definition schedule ::
    "(string \<Rightarrow> time \<Rightarrow> error + time) \<Rightarrow> time \<Rightarrow> job \<Rightarrow> world \<Rightarrow> error + bool \<times> job \<times> world" where
  "schedule get_next_cron_time now r w =
     (case ready_for_schedule now r w of
        Inl e \<Rightarrow> Inl e
      | Inr (ready, r1) \<Rightarrow>
          if \<not> ready then Inr (False, r1, w)
          else
            (case schedule_time get_next_cron_time now r1 of
               Inl e \<Rightarrow> Inl e
             | Inr at_time \<Rightarrow>
                 (case enqueue_at at_time (JOB_TYPE r1, pk r1) (enqueue_args r1) w of
                    Inl e \<Rightarrow> Inl e
                  | Inr (jid, w') \<Rightarrow> Inr (True, r1\<lparr>job_id := Some jid\<rparr>, w'))))"

text \<open>\<open>BaseJob.unschedule\<close>.\<close>

definition unschedule :: "job \<Rightarrow> world \<Rightarrow> bool \<times> job \<times> world" where
  "unschedule r w =
     (let w' = (if is_scheduled r w
                then registry_remove (the (job_id r)) (queue_remove (the (job_id r)) w)
                else w)
      in (True, r\<lparr>job_id := None\<rparr>, w'))"

text \<open>\<open>BaseJob.save\<close>; \<open>schedule_job\<close> is the keyword argument, \<open>True\<close> when not given.\<close>

definition save ::
    "bool \<Rightarrow> (string \<Rightarrow> time \<Rightarrow> error + time) \<Rightarrow> time \<Rightarrow> job \<Rightarrow> world \<Rightarrow> error + job \<times> world" where
  "save schedule_job get_next_cron_time now r w =
     (case db_save r w of
        (r1, w1) \<Rightarrow>
          if schedule_job then
            (case schedule get_next_cron_time now r1 w1 of
               Inl e \<Rightarrow> Inl e
             | Inr (_, r2, w2) \<Rightarrow> Inr (db_save r2 w2))
          else Inr (r1, w1))"

text \<open>\<open>BaseJob.delete\<close>.\<close>

definition delete :: "job \<Rightarrow> world \<Rightarrow> job \<times> world" where
  "delete r w = (case unschedule r w of (_, r1, w1) \<Rightarrow> db_delete r1 w1)"

subsection \<open>\<open>callback_save_job\<close>\<close>

text \<open>Lines 31 to 33: what the callback does with the record it found.\<close>

definition reschedule ::
    "(string \<Rightarrow> time \<Rightarrow> error + time) \<Rightarrow> time \<Rightarrow> job \<Rightarrow> world \<Rightarrow> error + job \<times> world" where
  "reschedule get_next_cron_time now r w =
     (case unschedule r w of
        (_, r1, w1) \<Rightarrow>
          (case schedule get_next_cron_time now r1 w1 of
             Inl e \<Rightarrow> Inl e
           | Inr (_, r2, w2) \<Rightarrow> save True get_next_cron_time now r2 w2))"


section \<open>Sequences of operations on one record\<close>

text \<open>
  The operations an application and the queue's worker perform on a record:
  \<open>schedule()\<close>, \<open>unschedule()\<close>, \<open>save(schedule_job=b)\<close>, \<open>delete()\<close>, and what
  \<open>callback_save_job\<close> does to the record it resolves. Each has the instant at which it
  runs; the answers of \<open>schedule\<close> and \<open>unschedule\<close> are dropped.
\<close>

datatype operation = Schedule | Unschedule | Save bool | Delete | Callback

definition apply_operation ::
    "(string \<Rightarrow> time \<Rightarrow> error + time) \<Rightarrow> time \<Rightarrow> operation \<Rightarrow> job \<Rightarrow> world \<Rightarrow> error + job \<times> world" where
  "apply_operation get_next_cron_time now oper r w =
     (case oper of
        Schedule \<Rightarrow>
          (case schedule get_next_cron_time now r w of
             Inl e \<Rightarrow> Inl e
           | Inr (_, r', w') \<Rightarrow> Inr (r', w'))
      | Unschedule \<Rightarrow> (case unschedule r w of (_, r', w') \<Rightarrow> Inr (r', w'))
      | Save schedule_job \<Rightarrow> save schedule_job get_next_cron_time now r w
      | Delete \<Rightarrow> Inr (delete r w)
      | Callback \<Rightarrow> reschedule get_next_cron_time now r w)"

fun run ::
    "(string \<Rightarrow> time \<Rightarrow> error + time) \<Rightarrow> (time \<times> operation) list \<Rightarrow> job \<Rightarrow> world \<Rightarrow> error + job \<times> world" where
  "run get_next_cron_time [] r w = Inr (r, w)"
| "run get_next_cron_time ((now, oper) # rest) r w =
     (case apply_operation get_next_cron_time now oper r w of
        Inl e \<Rightarrow> Inl e
      | Inr (r', w') \<Rightarrow> run get_next_cron_time rest r' w')"

text \<open>A disabled record has no live queue entry.\<close>

definition disabled_not_live :: "job \<Rightarrow> world \<Rightarrow> bool" where
  "disabled_not_live r w \<longleftrightarrow> (\<not> enabled r \<longrightarrow> \<not> is_scheduled r w)"

section \<open>Example records\<close>

text \<open>A queue and a table with nothing in them.\<close>

definition empty_world :: world where
  "empty_world =
     \<lparr>queue_job_ids = [], scheduled_job_registry = [], issued = 0, rows = [], trace = []\<rparr>"

text \<open>A stand-in for \<open>tools.get_next_cron_time\<close>: the next full minute after now.\<close>

definition next_minute :: "string \<Rightarrow> time \<Rightarrow> error + time" where
  "next_minute cron now = Inr (of_int (\<lfloor>now / 60\<rfloor> + 1) * 60)"

text \<open>
  A job that repeats every minute, three more times, first due at instant 0, and a
  one-off job due at instant 100.
\<close>

definition every_minute :: job where
  "every_minute =
     \<lparr>JOB_TYPE = RepeatableJob, pk = Some 1, name = ''every-minute'', enabled = True,
      job_id = None, repeat = Some 3, at_front = None, timeout = None, result_ttl = None,
      scheduled_time = Some 0, interval = 1, interval_unit = minutes, cron_string = []\<rparr>"

definition one_off :: job where
  "one_off =
     \<lparr>JOB_TYPE = ScheduledJob, pk = Some 1, name = ''one-off'', enabled = True,
      job_id = None, repeat = None, at_front = None, timeout = None, result_ttl = None,
      scheduled_time = Some 100, interval = 0, interval_unit = hours, cron_string = []\<rparr>"

text \<open>
  The one-off job after \<open>schedule()\<close> at instant 40 in the empty world, the world that
  call leaves, the same record with \<open>enabled\<close> set to \<open>False\<close> by the application, and the
  world after saving that record.
\<close>

definition one_off_scheduled :: job where
  "one_off_scheduled = one_off\<lparr>job_id := Some ''j''\<rparr>"

definition one_off_enqueued :: world where
  "one_off_enqueued =
     \<lparr>queue_job_ids = [], scheduled_job_registry = [''j''], issued = 1, rows = [],
      trace = [Enqueue_at 100 (ScheduledJob, Some 1) (enqueue_args one_off) ''j'']\<rparr>"

definition one_off_disabled :: job where
  "one_off_disabled = one_off_scheduled\<lparr>enabled := False\<rparr>"

definition one_off_saved :: world where
  "one_off_saved =
     one_off_enqueued\<lparr>rows := [one_off_disabled],
       trace := trace one_off_enqueued @ [Db_save one_off_disabled, Db_save one_off_disabled]\<rparr>"




section \<open>\<open>RepeatableJob.ready_for_schedule\<close> with the clock, the zones and the floats of the source\<close>

text \<open>
  The model so far takes instants on the time line, one reading of the clock per call
  and exact arithmetic. Lines 279 to 290 of the source have more to them: they read the
  clock three times, \<open>scheduled_time\<close> is a datetime with a time zone, the gap is
  computed from float timestamps, and the advance is an addition on the wall clock that
  can leave the range of \<open>datetime\<close>. This section models them as they are written
  (with \<open>USE_TZ\<close> on, so that every datetime is aware). Times are whole microseconds.
\<close>

subsection \<open>Aware datetimes\<close>

text \<open>
  An aware datetime: its wall-clock reading in microseconds since 1970-01-01 00:00:00
  on that wall clock, its \<open>fold\<close>, and the \<open>utcoffset\<close> of its zone in microseconds, for
  a wall-clock reading and a fold. \<open>instant\<close> is the place on the time line, in
  microseconds since the epoch; comparing two aware datetimes compares their instants.
\<close>

record aware =
  wall :: int
  fold :: bool
  utcoffset :: "int \<Rightarrow> bool \<Rightarrow> int"

definition instant :: "aware \<Rightarrow> int" where
  "instant d = wall d - utcoffset d (wall d) (fold d)"

text \<open>\<open>timezone.now()\<close> at the instant \<open>t\<close>: a datetime in UTC.\<close>

definition timezone_now :: "int \<Rightarrow> aware" where
  "timezone_now t = \<lparr>wall = t, fold = False, utcoffset = (\<lambda>w f. 0)\<rparr>"

text \<open>\<open>datetime.min\<close> and \<open>datetime.max\<close>: the years 1 to 9999.\<close>

definition datetime_min :: int where
  "datetime_min = - 62135596800000000"

definition datetime_max :: int where
  "datetime_max = 253402300799999999"

text \<open>
  \<open>datetime + timedelta\<close>: the sum of the wall-clock readings, in the same zone, with
  \<open>fold = 0\<close>; out of the range of \<open>datetime\<close> it raises.
\<close>

definition datetime_add :: "aware \<Rightarrow> int \<Rightarrow> error + aware" where
  "datetime_add d delta =
     (if wall d + delta < datetime_min \<or> datetime_max < wall d + delta then Inl OverflowError
      else Inr (d\<lparr>wall := wall d + delta, fold := False\<rparr>))"

subsection \<open>Floats\<close>

text \<open>
  A Python float is an IEEE double; its value is a rational. \<open>double x\<close> is the double
  nearest to \<open>x\<close>, ties to the even mantissa of 53 bits, which is what each float
  operation returns for the exact result \<open>x\<close>. (No number here is large or small enough
  for an infinity or a subnormal.) \<open>ilog2 x\<close> is the exponent of a positive \<open>x\<close>:
  \<open>2 ^ ilog2 x \<le> x < 2 ^ (ilog2 x + 1)\<close>.
\<close>

definition pow2 :: "int \<Rightarrow> rat" where
  "pow2 e = (if 0 \<le> e then 2 ^ nat e else 1 / 2 ^ nat (- e))"

definition ilog2 :: "rat \<Rightarrow> int" where
  "ilog2 x = (if 1 \<le> x then bitlen \<lfloor>x\<rfloor> - 1 else - bitlen (\<lceil>1 / x\<rceil> - 1))"

definition round_half_even :: "rat \<Rightarrow> int" where
  "round_half_even y =
     (let f = \<lfloor>y\<rfloor>; d = y - of_int f
      in if d < 1 / 2 then f
         else if 1 / 2 < d then f + 1
         else if even f then f else f + 1)"

definition double :: "rat \<Rightarrow> rat" where
  "double x =
     (if x = 0 then 0
      else (let u = pow2 (ilog2 \<bar>x\<bar> - 52) in of_int (round_half_even (x / u)) * u))"

text \<open>
  \<open>datetime.timestamp()\<close> of an aware datetime: \<open>(self - _EPOCH).total_seconds()\<close>, the
  quotient of the microseconds by \<open>10 ** 6\<close> as a float.
\<close>

definition timestamp :: "aware \<Rightarrow> rat" where
  "timestamp d = double (of_int (instant d) / 1000000)"

text \<open>
  \<open>timedelta(seconds=x)\<close> for a float \<open>x\<close>, in microseconds: rounded to a whole
  microsecond, and within 999999999 days either way, else it raises. (The only \<open>x\<close> it is
  given here is a product of two whole numbers, which is whole itself.)
\<close>

definition timedelta_seconds :: "rat \<Rightarrow> error + int" where
  "timedelta_seconds x =
     (let us = round_half_even (x * 1000000)
      in if us div 86400000000 < - 999999999 \<or> 999999999 < us div 86400000000
         then Inl OverflowError
         else Inr us)"

subsection \<open>Lines 279 to 290\<close>

text \<open>
  \<open>interval_seconds()\<close> as the source has it: \<open>timedelta(**{unit: interval})\<close> raises above
  999999999 days, and \<open>total_seconds()\<close> is a float. Its value is a whole number of
  seconds below \<open>2 ^ 53\<close>, which a float holds exactly.
\<close>

definition total_seconds :: "job \<Rightarrow> error + rat" where
  "total_seconds r =
     (if 999999999 < interval_seconds r div 86400 then Inl OverflowError
      else Inr (of_nat (interval_seconds r)))"

text \<open>
  Line 283: \<open>math.ceil((timezone.now().timestamp() - self.scheduled_time.timestamp()) /
  self.interval_seconds())\<close>, for the reading \<open>now\<close> of the clock at that line and the float
  \<open>i\<close> of the interval. Each of the two float operations rounds.
\<close>

definition gap_src :: "int \<Rightarrow> aware \<Rightarrow> rat \<Rightarrow> int" where
  "gap_src now d i = \<lceil>double (double (timestamp (timezone_now now) - timestamp d) / i)\<rceil>"

text \<open>
  Lines 283 to 286, for the reading \<open>now\<close> of line 283; the result is the new
  \<open>scheduled_time\<close> and the new \<open>repeat\<close>. Line 285 multiplies the float of the interval
  by the gap, makes a \<open>timedelta\<close> of the product and adds it to \<open>scheduled_time\<close>.
\<close>

definition catch_up_src :: "int \<Rightarrow> aware \<Rightarrow> job \<Rightarrow> error + aware \<times> nat option" where
  "catch_up_src now d r =
     (case total_seconds r of
        Inl e \<Rightarrow> Inl e
      | Inr i \<Rightarrow>
          if i = 0 then Inl ZeroDivisionError
          else
            (let gap = gap_src now d i
             in if repeat r = None \<or> int (the (repeat r)) \<ge> gap
                then
                  (case timedelta_seconds (double (i * double (of_int gap))) of
                     Inl e \<Rightarrow> Inl e
                   | Inr delta \<Rightarrow>
                       (case datetime_add d delta of
                          Inl e \<Rightarrow> Inl e
                        | Inr d' \<Rightarrow>
                            Inr (d', case repeat r of
                                       None \<Rightarrow> None
                                     | Some n \<Rightarrow> Some (nat (int n - gap)))))
                else Inr (d, repeat r)))"

text \<open>
  \<open>RepeatableJob.ready_for_schedule\<close> for a record whose \<open>scheduled_time\<close> is the aware
  datetime \<open>d\<close> (the field \<open>scheduled_time\<close> of the record, an instant, is not read).
  \<open>now_282\<close>, \<open>now_283\<close> and \<open>now_288\<close> are the instants that \<open>timezone.now()\<close> returns
  at these lines. The result is the answer, the new \<open>scheduled_time\<close> and the record
  with its new \<open>repeat\<close>.
\<close>

definition ready_for_schedule_RepeatableJob_src ::
    "int \<Rightarrow> int \<Rightarrow> int \<Rightarrow> aware \<Rightarrow> job \<Rightarrow> world \<Rightarrow> error + bool \<times> aware \<times> job" where
  "ready_for_schedule_RepeatableJob_src now_282 now_283 now_288 d r w =
     (if ready_for_schedule_BaseJob r w = False then Inr (False, d, r)
      else
        (case (if instant d < now_282 then catch_up_src now_283 d r else Inr (d, repeat r)) of
           Inl e \<Rightarrow> Inl e
         | Inr (d', n) \<Rightarrow>
             if instant d' < now_288 then Inr (False, d', r\<lparr>repeat := n\<rparr>)
             else Inr (True, d', r\<lparr>repeat := n\<rparr>)))"

text \<open>
  \<open>BaseJob.schedule\<close> for such a record: lines 159 to 170 on top of the function above.
  \<open>_schedule_time\<close> is \<open>utc(self.scheduled_time)\<close>, the same instant.
\<close>

definition schedule_RepeatableJob_src ::
    "int \<Rightarrow> int \<Rightarrow> int \<Rightarrow> aware \<Rightarrow> job \<Rightarrow> world \<Rightarrow> error + bool \<times> aware \<times> job \<times> world" where
  "schedule_RepeatableJob_src now_282 now_283 now_288 d r w =
     (case ready_for_schedule_RepeatableJob_src now_282 now_283 now_288 d r w of
        Inl e \<Rightarrow> Inl e
      | Inr (ready, d1, r1) \<Rightarrow>
          if \<not> ready then Inr (False, d1, r1, w)
          else
            (case enqueue_at (Some (of_int (instant d1) / 1000000)) (JOB_TYPE r1, pk r1)
                    (enqueue_args r1) w of
               Inl e \<Rightarrow> Inl e
             | Inr (jid, w') \<Rightarrow> Inr (True, d1, r1\<lparr>job_id := Some jid\<rparr>, w')))"

subsection \<open>Example datetimes\<close>

text \<open>
  A datetime in UTC, and one in a zone that observes the rules of \<open>America/New_York\<close> in
  2024: five hours behind UTC until 2024-03-10 02:00 on the wall clock, four hours
  behind from 03:00 of that day until 2024-11-03 02:00, five hours behind after that.
  The hour from 02:00 to 03:00 of 2024-03-10 does not exist, and a reading in it counts
  with the offset before the change for \<open>fold = 0\<close> and after it for \<open>fold = 1\<close>; the
  hour from 01:00 to 02:00 of 2024-11-03 comes twice, and with \<open>fold = 1\<close> it is the
  second, five hours behind.
\<close>

definition in_utc :: "int \<Rightarrow> aware" where
  "in_utc t = \<lparr>wall = t, fold = False, utcoffset = (\<lambda>w f. 0)\<rparr>"

definition new_york_2024 :: "int \<Rightarrow> bool \<Rightarrow> int" where
  "new_york_2024 w f =
     (if w < 1710036000000000 then - 18000000000
      else if w < 1710039600000000 then (if f then - 14400000000 else - 18000000000)
      else if w < 1730595600000000 then - 14400000000
      else if w < 1730599200000000 \<and> \<not> f then - 14400000000
      else - 18000000000)"

definition in_new_york :: "int \<Rightarrow> bool \<Rightarrow> aware" where
  "in_new_york t f = \<lparr>wall = t, fold = f, utcoffset = new_york_2024\<rparr>"

text \<open>
  Jobs that repeat every minute, every quarter of an hour, every hour and every day,
  enabled and not scheduled.
\<close>

definition every :: "nat \<Rightarrow> units \<Rightarrow> nat option \<Rightarrow> job" where
  "every n u k = every_minute\<lparr>interval := n, interval_unit := u, repeat := k\<rparr>"

section \<open>Auxiliary facts\<close>

subsection \<open>The gap\<close>

lemma gap_of_reaches: "0 < i \<Longrightarrow> now \<le> t + of_int (int i * gap_of now t i)"
proof -
  assume i: "0 < i"
  have "(now - t) / of_nat i \<le> of_int (gap_of now t i)"
    unfolding gap_of_def by (rule le_of_int_ceiling)
  then have "now - t \<le> of_int (gap_of now t i) * of_nat i"
    using i by (simp add: pos_divide_le_eq)
  then show ?thesis by (simp add: mult.commute)
qed

subsection \<open>Catching up\<close>

lemma catch_up_cases:
  assumes "catch_up now t r = Inr r'"
  shows "r' = r \<or>
    (0 < interval_seconds r \<and>
     r' = r\<lparr>scheduled_time := Some (t + of_int (int (interval_seconds r) * gap_of now t (interval_seconds r))),
            repeat := (case repeat r of None \<Rightarrow> None
                       | Some n \<Rightarrow> Some (nat (int n - gap_of now t (interval_seconds r))))\<rparr>)"
  using assms by (auto simp: catch_up_def Let_def split: if_splits)



subsection \<open>Eligibility\<close>

lemma is_scheduled_cong:
  "job_id r' = job_id r \<Longrightarrow> scheduled_job_registry w' = scheduled_job_registry w \<Longrightarrow>
   is_scheduled r' w' = is_scheduled r w"
  by (simp add: is_scheduled_def split: option.splits)

lemma not_scheduled_without_id: "job_id r = None \<Longrightarrow> \<not> is_scheduled r w"
  by (simp add: is_scheduled_def split: option.splits)


text \<open>
  With one reading \<open>now\<close> of the clock and exact arithmetic,
  \<open>RepeatableJob.ready_for_schedule\<close> either returns the record it was given or the
  record advanced by the gap; an advance moves the scheduled time to \<open>now\<close> or later, so
  the answer that comes with it is \<open>True\<close>.
\<close>

lemma ready_RepeatableJob_cases:
  assumes "ready_for_schedule_RepeatableJob now r w = Inr (b, r')"
  shows "r' = r \<or>
    (\<exists>t. scheduled_time r = Some t \<and> t < now \<and> 0 < interval_seconds r \<and> b \<and>
     r' = r\<lparr>scheduled_time := Some (t + of_int (int (interval_seconds r) * gap_of now t (interval_seconds r))),
            repeat := (case repeat r of None \<Rightarrow> None
                       | Some n \<Rightarrow> Some (nat (int n - gap_of now t (interval_seconds r))))\<rparr>)"
proof (cases "ready_for_schedule_BaseJob r w")
  case False
  with assms show ?thesis by (simp add: ready_for_schedule_RepeatableJob_def)
next
  case True
  then obtain t where t: "scheduled_time r = Some t"
    using assms by (cases "scheduled_time r") (auto simp: ready_for_schedule_RepeatableJob_def)
  show ?thesis
  proof (cases "t < now")
    case False
    with True t assms show ?thesis
      by (auto simp: ready_for_schedule_RepeatableJob_def split: if_splits)
  next
    case past: True
    from True t past assms obtain r1 where r1: "catch_up now t r = Inr r1"
      and fin: "(case scheduled_time r1 of None \<Rightarrow> Inl TypeError
                 | Some t' \<Rightarrow> if t' < now then Inr (False, r1) else Inr (True, r1)) = Inr (b, r')"
      by (auto simp: ready_for_schedule_RepeatableJob_def split: sum.splits)
    from fin have eq: "r' = r1" and ans: "\<exists>t'. scheduled_time r1 = Some t' \<and> b = (\<not> t' < now)"
      by (auto split: option.splits if_splits)
    from catch_up_cases[OF r1] show ?thesis
    proof
      assume "r1 = r" with eq show ?thesis by simp
    next
      assume adv: "0 < interval_seconds r \<and>
        r1 = r\<lparr>scheduled_time := Some (t + of_int (int (interval_seconds r) * gap_of now t (interval_seconds r))),
            repeat := (case repeat r of None \<Rightarrow> None
                       | Some n \<Rightarrow> Some (nat (int n - gap_of now t (interval_seconds r))))\<rparr>"
      then have "scheduled_time r1 = Some (t + of_int (int (interval_seconds r) * gap_of now t (interval_seconds r)))"
        by simp
      moreover have "now \<le> t + of_int (int (interval_seconds r) * gap_of now t (interval_seconds r))"
        using adv by (intro gap_of_reaches) simp
      ultimately have b using ans by auto
      with adv eq t past show ?thesis by blast
    qed
  qed
qed

lemma ready_cases:
  assumes "ready_for_schedule now r w = Inr (b, r')"
  shows "r' = r \<or>
    (\<exists>t. JOB_TYPE r = RepeatableJob \<and> scheduled_time r = Some t \<and> t < now
       \<and> 0 < interval_seconds r \<and> b \<and>
     r' = r\<lparr>scheduled_time := Some (t + of_int (int (interval_seconds r) * gap_of now t (interval_seconds r))),
            repeat := (case repeat r of None \<Rightarrow> None
                       | Some n \<Rightarrow> Some (nat (int n - gap_of now t (interval_seconds r))))\<rparr>)"
proof (cases "JOB_TYPE r")
  case RepeatableJob
  with assms have "ready_for_schedule_RepeatableJob now r w = Inr (b, r')"
    by (simp add: ready_for_schedule_def)
  from ready_RepeatableJob_cases[OF this] RepeatableJob show ?thesis by blast
qed (use assms in \<open>auto simp: ready_for_schedule_def\<close>)

lemma ready_False_unchanged:
  "ready_for_schedule now r w = Inr (False, r') \<Longrightarrow> r' = r"
  using ready_cases[of now r w False r'] by blast

lemma ready_fields:
  assumes "ready_for_schedule now r w = Inr (b, r')"
  shows "enabled r' = enabled r" and "job_id r' = job_id r" and "JOB_TYPE r' = JOB_TYPE r"
    and "pk r' = pk r"
  using ready_cases[OF assms] by auto

lemma ready_True:
  assumes "ready_for_schedule now r w = Inr (True, r')"
  shows "enabled r \<and> \<not> is_scheduled r w"
proof -
  have "ready_for_schedule_BaseJob r w"
    using assms
    by (cases "JOB_TYPE r")
       (auto simp: ready_for_schedule_def ready_for_schedule_ScheduledJob_def
          ready_for_schedule_RepeatableJob_def split: if_splits)
  then show ?thesis by (auto simp: ready_for_schedule_BaseJob_def split: if_splits)
qed

lemma ready_ScheduledJob_eq:
  assumes "JOB_TYPE r = ScheduledJob" and "scheduled_time r = Some T"
  shows "ready_for_schedule now r w = Inr (\<not> is_scheduled r w \<and> enabled r \<and> \<not> T < now, r)"
  using assms
  by (simp add: ready_for_schedule_def ready_for_schedule_ScheduledJob_def ready_for_schedule_BaseJob_def)





subsection \<open>The queue\<close>

lemma new_job_id_nonempty: "new_job_id n \<noteq> []"
  by (simp add: new_job_id_def)

lemma enqueue_at_Some:
  "enqueue_at (Some t) args kwargs w =
     Inr (new_job_id (issued w),
          w\<lparr>scheduled_job_registry := scheduled_job_registry w @ [new_job_id (issued w)],
            issued := Suc (issued w),
            trace := trace w @ [Enqueue_at t args kwargs (new_job_id (issued w))]\<rparr>)"
  by (simp add: enqueue_at_def Let_def)


lemma unschedule_eq:
  "unschedule r w =
     (True, r\<lparr>job_id := None\<rparr>,
      if is_scheduled r w then registry_remove (the (job_id r)) (queue_remove (the (job_id r)) w) else w)"
  by (simp add: unschedule_def Let_def)


subsection \<open>\<open>schedule\<close>\<close>

lemma schedule_not_ready:
  "ready_for_schedule now r w = Inr (False, r') \<Longrightarrow> schedule g now r w = Inr (False, r', w)"
  by (simp add: schedule_def)

lemma schedule_ready:
  assumes "ready_for_schedule now r w = Inr (True, r1)"
    and "schedule_time g now r1 = Inr (Some t)"
  shows "schedule g now r w =
     Inr (True, r1\<lparr>job_id := Some (new_job_id (issued w))\<rparr>,
          w\<lparr>scheduled_job_registry := scheduled_job_registry w @ [new_job_id (issued w)],
            issued := Suc (issued w),
            trace := trace w @ [Enqueue_at t (JOB_TYPE r1, pk r1) (enqueue_args r1) (new_job_id (issued w))]\<rparr>)"
  using assms by (simp add: schedule_def enqueue_at_Some)

lemma schedule_cases:
  assumes "schedule g now r w = Inr (b, r', w')"
  shows "(\<not> b \<and> ready_for_schedule now r w = Inr (False, r') \<and> w' = w) \<or>
    (b \<and> (\<exists>r1 t. ready_for_schedule now r w = Inr (True, r1)
        \<and> schedule_time g now r1 = Inr (Some t)
        \<and> r' = r1\<lparr>job_id := Some (new_job_id (issued w))\<rparr>
        \<and> w' = w\<lparr>scheduled_job_registry := scheduled_job_registry w @ [new_job_id (issued w)],
                 issued := Suc (issued w),
                 trace := trace w @ [Enqueue_at t (JOB_TYPE r1, pk r1) (enqueue_args r1)
                                       (new_job_id (issued w))]\<rparr>))"
proof -
  from assms obtain ready r1 where rd: "ready_for_schedule now r w = Inr (ready, r1)"
    by (auto simp: schedule_def split: sum.splits)
  show ?thesis
  proof (cases ready)
    case False
    with assms rd show ?thesis by (simp add: schedule_def)
  next
    case True
    with assms rd obtain at_time where at: "schedule_time g now r1 = Inr at_time"
      and enq: "(case enqueue_at at_time (JOB_TYPE r1, pk r1) (enqueue_args r1) w of
                    Inl e \<Rightarrow> Inl e
                  | Inr (jid, w') \<Rightarrow> Inr (True, r1\<lparr>job_id := Some jid\<rparr>, w')) = Inr (b, r', w')"
      by (auto simp: schedule_def split: sum.splits)
    from enq obtain t where t: "at_time = Some t"
      by (cases at_time) (auto simp: enqueue_at_def)
    from enq t have "b" and "r' = r1\<lparr>job_id := Some (new_job_id (issued w))\<rparr>"
      and "w' = w\<lparr>scheduled_job_registry := scheduled_job_registry w @ [new_job_id (issued w)],
                 issued := Suc (issued w),
                 trace := trace w @ [Enqueue_at t (JOB_TYPE r1, pk r1) (enqueue_args r1)
                                       (new_job_id (issued w))]\<rparr>"
      by (auto simp: enqueue_at_Some)
    with rd True at t show ?thesis by simp
  qed
qed

lemma schedule_enabled:
  assumes "schedule g now r w = Inr (b, r', w')"
  shows "enabled r' = enabled r"
  using schedule_cases[OF assms] by (auto dest: ready_fields(1))

lemma schedule_disabled:
  assumes "schedule g now r w = Inr (b, r', w')" and "\<not> enabled r"
  shows "r' = r \<and> w' = w"
  using schedule_cases[OF assms(1)] assms(2)
  by (auto dest: ready_True ready_False_unchanged)


subsection \<open>Storage, \<open>save\<close> and \<open>delete\<close>\<close>



lemma db_save_stored:
  "pk r = Some p \<Longrightarrow>
   db_save r w = (r, w\<lparr>rows := filter (\<lambda>x. \<not> same_row r x) (rows w) @ [r],
                       trace := trace w @ [Db_save r]\<rparr>)"
  by (simp add: db_save_def)

lemma db_save_fields:
  assumes "db_save r w = (r', w')"
  shows "enabled r' = enabled r" and "job_id r' = job_id r"
    and "scheduled_time r' = scheduled_time r"
    and "scheduled_job_registry w' = scheduled_job_registry w"
    and "queue_job_ids w' = queue_job_ids w"
  using assms by (auto simp: db_save_def Let_def split: option.splits)

lemma db_save_is_scheduled:
  "db_save r w = (r', w') \<Longrightarrow> is_scheduled r' w' = is_scheduled r w"
  by (rule is_scheduled_cong) (simp_all add: db_save_fields)



lemma save_cases:
  assumes "save b g now r w = Inr (r', w')"
  obtains (plain) "\<not> b" and "db_save r w = (r', w')"
  | (scheduling) r1 w1 c r2 w2 where b and "db_save r w = (r1, w1)"
      and "schedule g now r1 w1 = Inr (c, r2, w2)" and "db_save r2 w2 = (r', w')"
proof (cases b)
  case False
  with assms have "db_save r w = (r', w')"
    by (cases "db_save r w") (simp add: save_def)
  with False show ?thesis by (rule plain)
next
  case True
  obtain r1 w1 where s1: "db_save r w = (r1, w1)" by (cases "db_save r w")
  with True assms obtain c r2 w2 where s2: "schedule g now r1 w1 = Inr (c, r2, w2)"
    and s3: "db_save r2 w2 = (r', w')"
    by (auto simp: save_def split: sum.splits)
  from True s1 s2 s3 show ?thesis by (rule scheduling)
qed

lemma save_enabled:
  assumes "save b g now r w = Inr (r', w')"
  shows "enabled r' = enabled r"
  using assms
  by (cases rule: save_cases) (auto dest: db_save_fields(1) schedule_enabled)

lemma save_disabled:
  assumes "save b g now r w = Inr (r', w')" and "\<not> enabled r"
  shows "is_scheduled r' w' = is_scheduled r w"
  using assms(1)
proof (cases rule: save_cases)
  case plain
  then show ?thesis by (simp add: db_save_is_scheduled)
next
  case (scheduling r1 w1 c r2 w2)
  have "\<not> enabled r1" using scheduling(2) assms(2) by (simp add: db_save_fields(1))
  with scheduling(3) have "r2 = r1 \<and> w2 = w1" by (rule schedule_disabled)
  with scheduling show ?thesis by (simp add: db_save_is_scheduled)
qed

lemma delete_eq:
  "\<exists>w'. delete r w = (r\<lparr>job_id := None, pk := None\<rparr>, w')"
  by (simp add: delete_def unschedule_eq db_delete_def)

subsection \<open>The callback's three calls\<close>

lemma reschedule_cases:
  assumes "reschedule g now r w = Inr (r', w')"
  obtains c r2 w2 where
    "schedule g now (r\<lparr>job_id := None\<rparr>) (snd (snd (unschedule r w))) = Inr (c, r2, w2)"
    and "save True g now r2 w2 = Inr (r', w')"
  using assms by (auto simp: reschedule_def unschedule_eq split: sum.splits)

lemma reschedule_enabled:
  assumes "reschedule g now r w = Inr (r', w')"
  shows "enabled r' = enabled r"
  using assms
  by (cases rule: reschedule_cases) (auto dest: save_enabled schedule_enabled)

lemma reschedule_disabled:
  assumes "reschedule g now r w = Inr (r', w')" and "\<not> enabled r"
  shows "\<not> is_scheduled r' w'"
  using assms(1)
proof (cases rule: reschedule_cases)
  case (1 c r2 w2)
  have "\<not> enabled (r\<lparr>job_id := None\<rparr>)" using assms(2) by simp
  with 1(1) have r2: "r2 = r\<lparr>job_id := None\<rparr>" by (blast dest: schedule_disabled)
  then have "\<not> enabled r2" using assms(2) by simp
  with 1(2) have "is_scheduled r' w' = is_scheduled r2 w2" by (rule save_disabled)
  with r2 show ?thesis by (simp add: not_scheduled_without_id)
qed





subsection \<open>One operation, and a sequence of them\<close>

lemma apply_operation_enabled:
  assumes "apply_operation g now oper r w = Inr (r', w')"
  shows "enabled r' = enabled r"
proof (cases oper)
  case Schedule
  with assms show ?thesis
    by (auto simp: apply_operation_def split: sum.splits dest: schedule_enabled)
next
  case Unschedule
  with assms show ?thesis by (auto simp: apply_operation_def unschedule_eq)
next
  case (Save b)
  with assms show ?thesis by (auto simp: apply_operation_def dest: save_enabled)
next
  case Delete
  with assms delete_eq[of r w] show ?thesis by (auto simp: apply_operation_def)
next
  case Callback
  with assms show ?thesis by (auto simp: apply_operation_def dest: reschedule_enabled)
qed

lemma apply_operation_disabled:
  assumes "apply_operation g now oper r w = Inr (r', w')"
    and "\<not> enabled r" and "\<not> is_scheduled r w"
  shows "\<not> is_scheduled r' w'"
proof (cases oper)
  case Schedule
  with assms(1) obtain c where "schedule g now r w = Inr (c, r', w')"
    by (auto simp: apply_operation_def split: sum.splits)
  then have "r' = r \<and> w' = w" using assms(2) by (rule schedule_disabled)
  with assms(3) show ?thesis by simp
next
  case Unschedule
  with assms(1) have "job_id r' = None" by (auto simp: apply_operation_def unschedule_eq)
  then show ?thesis by (rule not_scheduled_without_id)
next
  case (Save b)
  with assms(1) have "save b g now r w = Inr (r', w')" by (simp add: apply_operation_def)
  with assms(2,3) show ?thesis by (simp add: save_disabled)
next
  case Delete
  with assms(1) delete_eq[of r w] have "job_id r' = None" by (auto simp: apply_operation_def)
  then show ?thesis by (rule not_scheduled_without_id)
next
  case Callback
  with assms(1) have "reschedule g now r w = Inr (r', w')" by (simp add: apply_operation_def)
  with assms(2) show ?thesis by (simp add: reschedule_disabled)
qed

subsection \<open>The example records at work\<close>




lemma one_off_schedule:
  "schedule next_minute 40 one_off empty_world = Inr (True, one_off_scheduled, one_off_enqueued)"
proof -
  have k: "JOB_TYPE one_off = ScheduledJob" and t: "scheduled_time one_off = Some 100"
    by (simp_all add: one_off_def)
  have "enabled one_off \<and> \<not> is_scheduled one_off empty_world"
    by (simp add: one_off_def is_scheduled_def)
  then have "ready_for_schedule 40 one_off empty_world = Inr (True, one_off)"
    using ready_ScheduledJob_eq[OF k t, of 40 empty_world] by simp
  moreover have "schedule_time next_minute 40 one_off = Inr (Some 100)"
    by (simp add: schedule_time_def one_off_def)
  ultimately have "schedule next_minute 40 one_off empty_world =
     Inr (True, one_off\<lparr>job_id := Some (new_job_id (issued empty_world))\<rparr>,
          empty_world\<lparr>scheduled_job_registry := scheduled_job_registry empty_world @ [new_job_id (issued empty_world)],
            issued := Suc (issued empty_world),
            trace := trace empty_world @ [Enqueue_at 100 (JOB_TYPE one_off, pk one_off) (enqueue_args one_off) (new_job_id (issued empty_world))]\<rparr>)"
    by (rule schedule_ready)
  then show ?thesis
    by (simp add: empty_world_def new_job_id_def one_off_scheduled_def one_off_enqueued_def one_off_def)
qed

lemma one_off_disabled_save:
  "save True next_minute 50 one_off_disabled one_off_enqueued = Inr (one_off_disabled, one_off_saved)"
proof -
  have pk: "pk one_off_disabled = Some 1"
    by (simp add: one_off_disabled_def one_off_scheduled_def one_off_def)
  let ?w1 = "one_off_enqueued\<lparr>rows := [one_off_disabled],
       trace := trace one_off_enqueued @ [Db_save one_off_disabled]\<rparr>"
  have s1: "db_save one_off_disabled one_off_enqueued = (one_off_disabled, ?w1)"
    by (simp add: db_save_stored[OF pk] one_off_enqueued_def)
  have k: "JOB_TYPE one_off_disabled = ScheduledJob"
    and t: "scheduled_time one_off_disabled = Some 100"
    by (simp_all add: one_off_disabled_def one_off_scheduled_def one_off_def)
  have "is_scheduled one_off_disabled ?w1"
    by (simp add: is_scheduled_def one_off_disabled_def one_off_scheduled_def one_off_enqueued_def)
  then have "ready_for_schedule 50 one_off_disabled ?w1 = Inr (False, one_off_disabled)"
    using ready_ScheduledJob_eq[OF k t, of 50 ?w1] by simp
  then have s2: "schedule next_minute 50 one_off_disabled ?w1 = Inr (False, one_off_disabled, ?w1)"
    by (rule schedule_not_ready)
  have s3: "db_save one_off_disabled ?w1 = (one_off_disabled, one_off_saved)"
    by (simp add: db_save_stored[OF pk] one_off_saved_def same_row_def)
  show ?thesis by (simp add: save_def s1 s2 s3)
qed

lemma one_off_disabled_schedule:
  "schedule next_minute 40 (one_off_disabled\<lparr>job_id := Some ''gone''\<rparr>) empty_world =
     Inr (False, one_off_disabled\<lparr>job_id := Some ''gone''\<rparr>, empty_world)"
proof -
  let ?r = "one_off_disabled\<lparr>job_id := Some ''gone''\<rparr>"
  have k: "JOB_TYPE ?r = ScheduledJob" and t: "scheduled_time ?r = Some 100"
    by (simp_all add: one_off_disabled_def one_off_scheduled_def one_off_def)
  have "\<not> enabled ?r" by (simp add: one_off_disabled_def)
  then have "ready_for_schedule 40 ?r empty_world = Inr (False, ?r)"
    using ready_ScheduledJob_eq[OF k t, of 40 empty_world] by simp
  then show ?thesis by (rule schedule_not_ready)
qed

subsection \<open>\<open>clean_result_ttl\<close>\<close>

lemma clean_result_ttl_total:
  "clean_result_ttl r = Inl ValidationError \<or> clean_result_ttl r = Inr ()"
  by (simp add: clean_result_ttl_def)

lemma clean_result_ttl_raises_iff:
  "clean_result_ttl r = Inl ValidationError \<longleftrightarrow>
     (\<exists>ttl n. result_ttl r = Some ttl \<and> ttl \<noteq> 0 \<and> ttl \<noteq> - 1
        \<and> ttl < int (interval_seconds r) \<and> repeat r = Some n \<and> 0 < n)"
  by (cases "result_ttl r"; cases "repeat r")
     (auto simp: clean_result_ttl_def truthy_int_def truthy_nat_def)

section \<open>Auxiliary facts for lines 279 to 290 as written\<close>

subsection \<open>Floats of whole numbers\<close>

lemma round_half_even_of_int: "round_half_even (of_int m) = m"
  by (simp add: round_half_even_def)

lemma pow2_pos: "0 < pow2 e"
  by (simp add: pow2_def)

lemma ilog2_of_int:
  assumes "1 \<le> m"
  shows "ilog2 (of_int m) = bitlen m - 1"
proof -
  have "(1 :: rat) \<le> of_int m" using assms by (metis of_int_1 of_int_le_iff)
  then show ?thesis by (simp add: ilog2_def)
qed

text \<open>A whole number below \<open>2 ^ 53\<close> is a float.\<close>

lemma double_of_int:
  assumes "\<bar>n\<bar> < 2 ^ 53"
  shows "double (of_int n) = of_int n"
proof (cases "n = 0")
  case True
  then show ?thesis by (simp add: double_def)
next
  case False
  define m where "m = \<bar>n\<bar>"
  have pos: "1 \<le> m" using False by (simp add: m_def)
  have abs: "\<bar>(of_int n :: rat)\<bar> = of_int m" by (simp add: m_def)
  have e: "ilog2 \<bar>of_int n\<bar> = bitlen m - 1"
    unfolding abs using pos by (rule ilog2_of_int)
  have "bitlen m \<le> 53" using assms by (simp add: bitlen_le_iff_power m_def)
  then have "0 \<le> 53 - bitlen m" by simp
  then obtain j :: nat where "53 - bitlen m = int j" by (rule nonneg_int_cases)
  then have j: "ilog2 \<bar>of_int n\<bar> - 52 = - int j" unfolding e by simp
  have u: "pow2 (ilog2 \<bar>of_int n\<bar> - 52) = 1 / 2 ^ j"
    unfolding j by (cases "j = 0") (simp_all add: pow2_def)
  have q: "(of_int n :: rat) / (1 / 2 ^ j) = of_int (n * 2 ^ j)" by simp
  have "double (of_int n) = of_int (round_half_even (of_int (n * 2 ^ j))) * (1 / 2 ^ j)"
    using False unfolding double_def Let_def u q by simp
  also have "\<dots> = of_int n" unfolding round_half_even_of_int by simp
  finally show ?thesis .
qed

subsection \<open>The interval and the advance\<close>

lemma total_seconds_eq:
  assumes "interval_seconds r div 86400 \<le> 999999999"
  shows "total_seconds r = Inr (of_nat (interval_seconds r))"
  using assms by (simp add: total_seconds_def)

lemma timedelta_seconds_whole:
  assumes "\<bar>n\<bar> \<le> 86399999913600"
  shows "timedelta_seconds (of_int n) = Inr (n * 1000000)"
proof -
  have r: "round_half_even (of_int n * 1000000) = n * 1000000"
    using round_half_even_of_int[of "n * 1000000"] by simp
  have "(- 86399999913600000000) div 86400000000 \<le> (n * 1000000) div 86400000000"
    by (rule zdiv_mono1) (use assms in auto)
  moreover have "(n * 1000000) div 86400000000 \<le> 86399999913600000000 div 86400000000"
    by (rule zdiv_mono1) (use assms in auto)
  ultimately have "- 999999999 \<le> (n * 1000000) div 86400000000"
    and "(n * 1000000) div 86400000000 \<le> 999999999"
    by simp_all
  then show ?thesis by (simp add: timedelta_seconds_def r Let_def del: div_mult_self1 div_mult_self2)
qed

text \<open>
  Lines 284 to 286 when the repeats cover the gap \<open>g\<close> of line 283: the wall clock of
  \<open>scheduled_time\<close> moves by \<open>g\<close> intervals.
\<close>

lemma catch_up_src_advance:
  assumes i: "interval_seconds r div 86400 \<le> 999999999" "0 < interval_seconds r"
    and g: "gap_src now d (of_nat (interval_seconds r)) = g"
    and rep: "case repeat r of None \<Rightarrow> True | Some n \<Rightarrow> g \<le> int n"
    and small: "\<bar>g * int (interval_seconds r)\<bar> \<le> 86399999913600"
    and range: "datetime_min \<le> wall d + g * int (interval_seconds r) * 1000000"
      "wall d + g * int (interval_seconds r) * 1000000 \<le> datetime_max"
  shows "catch_up_src now d r =
     Inr (d\<lparr>wall := wall d + g * int (interval_seconds r) * 1000000, fold := False\<rparr>,
          case repeat r of None \<Rightarrow> None | Some n \<Rightarrow> Some (nat (int n - g)))"
proof -
  let ?I = "interval_seconds r"
  have "\<bar>g\<bar> * 1 \<le> \<bar>g\<bar> * int ?I" using i(2) by (intro mult_left_mono) simp_all
  then have gs: "\<bar>g\<bar> \<le> 86399999913600" using small by (simp add: abs_mult)
  have dg: "double (of_int g) = of_int g" using gs by (intro double_of_int) simp
  have "(of_nat ?I :: rat) * of_int g = of_int (g * int ?I)" by simp
  moreover have "double (of_int (g * int ?I)) = of_int (g * int ?I)"
    using small by (intro double_of_int) simp
  ultimately have prod: "double (of_nat ?I * double (of_int g)) = of_int (g * int ?I)"
    by (simp only: dg)
  have td: "timedelta_seconds (double (of_nat ?I * double (of_int g))) = Inr (g * int ?I * 1000000)"
    unfolding prod using small by (rule timedelta_seconds_whole)
  have add: "datetime_add d (g * int ?I * 1000000) =
      Inr (d\<lparr>wall := wall d + g * int ?I * 1000000, fold := False\<rparr>)"
    using range by (simp add: datetime_add_def)
  have nz: "(of_nat ?I :: rat) \<noteq> 0" using i(2) by simp
  have go: "repeat r = None \<or> g \<le> int (the (repeat r))"
    using rep by (cases "repeat r") simp_all
  show ?thesis
    unfolding catch_up_src_def total_seconds_eq[OF i(1)]
    using nz g go by (simp add: td add)
qed

lemma catch_up_src_exhausted:
  assumes i: "interval_seconds r div 86400 \<le> 999999999" "0 < interval_seconds r"
    and g: "gap_src now d (of_nat (interval_seconds r)) = g"
    and rep: "repeat r = Some R" "int R < g"
  shows "catch_up_src now d r = Inr (d, Some R)"
proof -
  have nz: "(of_nat (interval_seconds r) :: rat) \<noteq> 0" using i(2) by simp
  show ?thesis
    unfolding catch_up_src_def total_seconds_eq[OF i(1)]
    using nz g rep by simp
qed


lemma ready_src_past:
  assumes "enabled r" and "\<not> is_scheduled r w" and "instant d < now_282"
    and "catch_up_src now_283 d r = Inr (d', n)"
  shows "ready_for_schedule_RepeatableJob_src now_282 now_283 now_288 d r w =
     Inr (\<not> instant d' < now_288, d', r\<lparr>repeat := n\<rparr>)"
  using assms
  by (simp add: ready_for_schedule_RepeatableJob_src_def ready_for_schedule_BaseJob_def)

lemma schedule_src_not_ready:
  assumes "ready_for_schedule_RepeatableJob_src now_282 now_283 now_288 d r w = Inr (False, d1, r1)"
  shows "schedule_RepeatableJob_src now_282 now_283 now_288 d r w = Inr (False, d1, r1, w)"
  using assms by (simp add: schedule_RepeatableJob_src_def)

subsection \<open>The example datetimes and jobs\<close>

lemma in_utc_advance: "(in_utc t)\<lparr>wall := t', fold := False\<rparr> = in_utc t'"
  by (simp add: in_utc_def)

lemma in_new_york_advance: "(in_new_york t f)\<lparr>wall := t', fold := False\<rparr> = in_new_york t' False"
  by (simp add: in_new_york_def)

lemma instant_in_utc: "instant (in_utc t) = t" "wall (in_utc t) = t"
  by (simp_all add: instant_def in_utc_def)

lemma instant_in_new_york:
  "instant (in_new_york t f) = t - new_york_2024 t f" "wall (in_new_york t f) = t"
  by (simp_all add: instant_def in_new_york_def)

lemma every_fields:
  "JOB_TYPE (every n u k) = RepeatableJob" "enabled (every n u k)"
  "\<not> is_scheduled (every n u k) w" "repeat (every n u k) = k"
  "interval (every n u k) = n" "interval_unit (every n u k) = u"
  by (simp_all add: every_def every_minute_def is_scheduled_def)

lemma every_seconds:
  "interval_seconds (every 1 minutes k) = 60" "interval_seconds (every 15 minutes k) = 900"
  "interval_seconds (every 1 hours k) = 3600" "interval_seconds (every 1 days k) = 86400"
  by (simp_all add: interval_seconds_def every_fields)

lemma ready_src_at:
  assumes "interval_seconds (every n u k) div 86400 \<le> 999999999"
    and "0 < interval_seconds (every n u k)"
    and "instant d < now_282"
    and "gap_src now_283 d (of_nat (interval_seconds (every n u k))) = g"
    and "case k of None \<Rightarrow> True | Some m \<Rightarrow> g \<le> int m"
    and "\<bar>g * int (interval_seconds (every n u k))\<bar> \<le> 86399999913600"
    and "datetime_min \<le> wall d + g * int (interval_seconds (every n u k)) * 1000000"
    and "wall d + g * int (interval_seconds (every n u k)) * 1000000 \<le> datetime_max"
  shows "ready_for_schedule_RepeatableJob_src now_282 now_283 now_288 d (every n u k) w =
     Inr (\<not> instant (d\<lparr>wall := wall d + g * int (interval_seconds (every n u k)) * 1000000,
                          fold := False\<rparr>) < now_288,
          d\<lparr>wall := wall d + g * int (interval_seconds (every n u k)) * 1000000, fold := False\<rparr>,
          (every n u k)\<lparr>repeat := (case k of None \<Rightarrow> None | Some m \<Rightarrow> Some (nat (int m - g)))\<rparr>)"
proof -
  have "catch_up_src now_283 d (every n u k) =
     Inr (d\<lparr>wall := wall d + g * int (interval_seconds (every n u k)) * 1000000, fold := False\<rparr>,
          case k of None \<Rightarrow> None | Some m \<Rightarrow> Some (nat (int m - g)))"
    using catch_up_src_advance[OF assms(1,2,4) _ assms(6,7,8)] assms(5)
    by (simp add: every_fields)
  with every_fields(2,3) assms(3) show ?thesis by (rule ready_src_past)
qed


lemma gap_since_1744: "gap_src 1803597297076783 (in_utc (- 7120399502923218)) 3600 = 2478888"
  by code_simp

lemma gap_minute_nearly_over: "gap_src 1700000059999999 (in_utc 1700000000000000) 60 = 1"
  by code_simp

lemma gap_across_spring_change:
  "gap_src 1710088200000000 (in_new_york 1709985600000000 False) 86400 = 1"
  by code_simp

lemma gap_in_second_hour: "gap_src 1730614800000000 (in_new_york 1730596200000000 True) 900 = 1"
  by code_simp

section \<open>Catch-up advancement of interval jobs\<close>




text \<open>
  Claim C2. When the repeats left do not cover the gap, \<open>R < k\<close>, \<open>ready_for_schedule\<close> is
  to advance nothing and answer \<open>False\<close>. Line 283 takes the gap from two float
  timestamps, and the floats next to a timestamp of the year 2027 are a quarter of a
  microsecond apart, those next to one of the year 1744 a microsecond. A job of every hour has 2478888 repeats left and a scheduled time
  2478888 hours and one microsecond before \<open>now\<close>: \<open>k\<close> is 2478889, the gap of line 283
  is 2478888. The source advances the scheduled time by 2478888 hours, which is one
  microsecond short of \<open>now\<close>, takes all the repeats, and answers \<open>False\<close>.
\<close>

theorem exhausted_repeats_advanced:
  "repeat (every 1 hours (Some 2478888)) = Some 2478888
   \<and> interval_seconds (every 1 hours (Some 2478888)) = 3600
   \<and> instant (in_utc (- 7120399502923218)) < 1803597297076783
   \<and> \<lceil>(of_int (1803597297076783 - instant (in_utc (- 7120399502923218))) :: rat)
         / (3600 * 1000000)\<rceil> = 2478889
   \<and> ready_for_schedule_RepeatableJob_src 1803597297076783 1803597297076783 1803597297076783
         (in_utc (- 7120399502923218)) (every 1 hours (Some 2478888)) empty_world =
       Inr (False, in_utc 1803597297076782, (every 1 hours (Some 2478888))\<lparr>repeat := Some 0\<rparr>)
   \<and> instant (in_utc 1803597297076782) = instant (in_utc (- 7120399502923218)) + 2478888 * 3600 * 1000000"
proof -
  let ?r = "every 1 hours (Some 2478888)"
  let ?d = "in_utc (- 7120399502923218)"
  have I: "interval_seconds ?r = 3600" by (rule every_seconds)
  have "ready_for_schedule_RepeatableJob_src 1803597297076783 1803597297076783 1803597297076783
         ?d ?r empty_world =
     Inr (\<not> instant (?d\<lparr>wall := wall ?d + 2478888 * int (interval_seconds ?r) * 1000000,
                          fold := False\<rparr>) < 1803597297076783,
          ?d\<lparr>wall := wall ?d + 2478888 * int (interval_seconds ?r) * 1000000, fold := False\<rparr>,
          ?r\<lparr>repeat := (case Some 2478888 of None \<Rightarrow> None | Some m \<Rightarrow> Some (nat (int m - 2478888)))\<rparr>)"
    by (rule ready_src_at[where k="Some 2478888" and g=2478888])
       (simp_all del: One_nat_def add: I instant_in_utc gap_since_1744 datetime_min_def datetime_max_def)
  then have "ready_for_schedule_RepeatableJob_src 1803597297076783 1803597297076783 1803597297076783
         ?d ?r empty_world = Inr (False, in_utc 1803597297076782, ?r\<lparr>repeat := Some 0\<rparr>)"
    unfolding I instant_in_utc in_utc_advance by (simp add: instant_in_utc)
  moreover have "repeat ?r = Some 2478888" by (simp add: every_fields)
  moreover have "instant ?d < 1803597297076783"
    "\<lceil>(of_int (1803597297076783 - instant ?d) :: rat) / (3600 * 1000000)\<rceil> = 2478889"
    "instant (in_utc 1803597297076782) = instant ?d + 2478888 * 3600 * 1000000"
    by (simp_all add: instant_in_utc ceiling_eq_iff)
  ultimately show ?thesis using I by blast
qed

section \<open>Disabled records and the registry\<close>

text \<open>
  Claim C3. A disabled record has no live queue entry. Every sequence of \<open>schedule\<close>,
  \<open>unschedule\<close>, \<open>save\<close>, \<open>delete\<close> and the callback's calls keeps it so, from a state
  in which it holds: none of them enqueues a disabled record. They do not bring it about
  when the application disables a record that is scheduled, as the example after the
  theorem shows.
\<close>

theorem disabled_not_live_preserved:
  assumes "disabled_not_live r w" and "run g steps r w = Inr (r', w')"
  shows "disabled_not_live r' w'"
  using assms
proof (induction steps arbitrary: r w)
  case Nil
  then show ?case by simp
next
  case (Cons step steps)
  obtain now oper where step: "step = (now, oper)" by (cases step)
  with Cons.prems(2) obtain r1 w1 where one: "apply_operation g now oper r w = Inr (r1, w1)"
    and rest: "run g steps r1 w1 = Inr (r', w')"
    by (auto split: sum.splits)
  have "disabled_not_live r1 w1"
    unfolding disabled_not_live_def
  proof
    assume "\<not> enabled r1"
    then have off: "\<not> enabled r" using apply_operation_enabled[OF one] by simp
    with Cons.prems(1) have "\<not> is_scheduled r w" by (simp add: disabled_not_live_def)
    with one off show "\<not> is_scheduled r1 w1" by (rule apply_operation_disabled)
  qed
  then show ?case using rest by (rule Cons.IH)
qed

text \<open>A disabled record with a stale \<open>job_id\<close>, through \<open>schedule\<close> and \<open>unschedule\<close>.\<close>

theorem disabled_not_live_preserved_witness:
  "disabled_not_live (one_off_disabled\<lparr>job_id := Some ''gone''\<rparr>) empty_world
   \<and> run next_minute [(40, Schedule), (50, Unschedule)]
        (one_off_disabled\<lparr>job_id := Some ''gone''\<rparr>) empty_world
       = Inr (one_off_disabled\<lparr>job_id := None\<rparr>, empty_world)
   \<and> disabled_not_live (one_off_disabled\<lparr>job_id := None\<rparr>) empty_world"
proof -
  let ?r = "one_off_disabled\<lparr>job_id := Some ''gone''\<rparr>"
  have stale: "\<not> is_scheduled ?r empty_world"
    by (simp add: is_scheduled_def empty_world_def)
  then have inv: "disabled_not_live ?r empty_world"
    by (simp add: disabled_not_live_def)
  have run: "run next_minute [(40, Schedule), (50, Unschedule)] ?r empty_world
       = Inr (one_off_disabled\<lparr>job_id := None\<rparr>, empty_world)"
    using stale by (simp add: apply_operation_def one_off_disabled_schedule unschedule_eq)
  from disabled_not_live_preserved[OF inv run] inv run show ?thesis by simp
qed

text \<open>
  The one-off job is scheduled while enabled; the application then sets \<open>enabled\<close> to
  \<open>False\<close> and saves. The \<open>schedule()\<close> inside \<open>save\<close> returns at once because the record
  is already scheduled, nothing unschedules it, and the disabled record stays in the
  registry.
\<close>

theorem disabled_then_saved_stays_live:
  "enabled one_off \<and> \<not> is_scheduled one_off empty_world
   \<and> schedule next_minute 40 one_off empty_world = Inr (True, one_off_scheduled, one_off_enqueued)
   \<and> one_off_disabled = one_off_scheduled\<lparr>enabled := False\<rparr>
   \<and> save True next_minute 50 one_off_disabled one_off_enqueued = Inr (one_off_disabled, one_off_saved)
   \<and> \<not> enabled one_off_disabled
   \<and> is_scheduled one_off_disabled one_off_saved"
proof -
  have "enabled one_off \<and> \<not> is_scheduled one_off empty_world"
    by (simp add: one_off_def is_scheduled_def)
  moreover have "\<not> enabled one_off_disabled" by (simp add: one_off_disabled_def)
  moreover have "is_scheduled one_off_disabled one_off_saved"
    by (simp add: is_scheduled_def one_off_disabled_def one_off_scheduled_def one_off_saved_def
        one_off_enqueued_def)
  ultimately show ?thesis
    using one_off_schedule one_off_disabled_save by (simp add: one_off_disabled_def)
qed

section \<open>\<open>unschedule\<close>\<close>

text \<open>
  Claim C4. Whatever the record and the queue, \<open>unschedule()\<close> answers \<open>True\<close> and leaves
  \<open>job_id = None\<close>; a second \<open>unschedule()\<close> answers \<open>True\<close> again and changes neither
  the record nor the queue; and for a record whose \<open>job_id\<close> is not in the registry it
  clears the id, answers \<open>True\<close> and leaves the queue alone. \<open>unschedule\<close> has no
  failing branch.
\<close>

theorem unschedule_idempotent:
  "fst (unschedule r w) = True
   \<and> job_id (fst (snd (unschedule r w))) = None
   \<and> unschedule (fst (snd (unschedule r w))) (snd (snd (unschedule r w)))
       = (True, fst (snd (unschedule r w)), snd (snd (unschedule r w)))
   \<and> (\<forall>j. job_id r = Some j \<and> j \<notin> set (scheduled_job_registry w)
         \<longrightarrow> unschedule r w = (True, r\<lparr>job_id := None\<rparr>, w))"
proof -
  let ?r1 = "r\<lparr>job_id := None\<rparr>"
  have second: "unschedule ?r1 w1 = (True, ?r1, w1)" for w1
    using not_scheduled_without_id[of ?r1 w1] by (simp add: unschedule_eq)
  have stale: "unschedule r w = (True, ?r1, w)"
    if "job_id r = Some j" "j \<notin> set (scheduled_job_registry w)" for j
    using that by (simp add: unschedule_eq is_scheduled_def)
  show ?thesis using second stale by (simp add: unschedule_eq)
qed

theorem unschedule_idempotent_witness:
  "job_id (every_minute\<lparr>job_id := Some ''gone''\<rparr>) = Some ''gone''
   \<and> ''gone'' \<notin> set (scheduled_job_registry empty_world)
   \<and> unschedule (every_minute\<lparr>job_id := Some ''gone''\<rparr>) empty_world
       = (True, every_minute\<lparr>job_id := None\<rparr>, empty_world)"
  using unschedule_idempotent[of "every_minute\<lparr>job_id := Some ''gone''\<rparr>" empty_world]
  by (simp add: empty_world_def)

section \<open>\<open>schedule\<close>\<close>

text \<open>
  Claim C5. For a fixed-instant job with scheduled time \<open>T\<close>: if it is enabled, not
  already scheduled and \<open>now \<le> T\<close>, then \<open>schedule()\<close> answers \<open>True\<close> and
  \<open>is_scheduled()\<close> holds afterwards; if \<open>T < now\<close>, then \<open>ready_for_schedule\<close> answers
  \<open>False\<close> and \<open>schedule()\<close> answers \<open>False\<close>, leaving record and queue as they were.
\<close>

theorem schedule_fixed_instant:
  assumes "JOB_TYPE r = ScheduledJob" and "scheduled_time r = Some T"
  shows "(enabled r \<and> \<not> is_scheduled r w \<and> now \<le> T \<longrightarrow>
            (\<exists>r' w'. schedule g now r w = Inr (True, r', w') \<and> is_scheduled r' w'))
         \<and> (T < now \<longrightarrow>
            ready_for_schedule now r w = Inr (False, r) \<and> schedule g now r w = Inr (False, r, w))"
proof (intro conjI impI)
  assume ok: "enabled r \<and> \<not> is_scheduled r w \<and> now \<le> T"
  then have ready: "ready_for_schedule now r w = Inr (True, r)"
    using ready_ScheduledJob_eq[OF assms, of now w] by simp
  have at: "schedule_time g now r = Inr (Some T)"
    using assms by (simp add: schedule_time_def)
  let ?r' = "r\<lparr>job_id := Some (new_job_id (issued w))\<rparr>"
  let ?w' = "w\<lparr>scheduled_job_registry := scheduled_job_registry w @ [new_job_id (issued w)],
            issued := Suc (issued w),
            trace := trace w @ [Enqueue_at T (JOB_TYPE r, pk r) (enqueue_args r) (new_job_id (issued w))]\<rparr>"
  have "schedule g now r w = Inr (True, ?r', ?w')"
    by (rule schedule_ready[OF ready at])
  moreover have "is_scheduled ?r' ?w'"
    by (simp add: is_scheduled_def new_job_id_nonempty)
  ultimately show "\<exists>r' w'. schedule g now r w = Inr (True, r', w') \<and> is_scheduled r' w'"
    by blast
next
  assume "T < now"
  then show "ready_for_schedule now r w = Inr (False, r)"
    using ready_ScheduledJob_eq[OF assms, of now w] by simp
  then show "schedule g now r w = Inr (False, r, w)"
    by (rule schedule_not_ready)
qed

theorem schedule_fixed_instant_witness:
  "JOB_TYPE one_off = ScheduledJob \<and> scheduled_time one_off = Some 100
   \<and> enabled one_off \<and> \<not> is_scheduled one_off empty_world \<and> (40 :: time) \<le> 100
   \<and> (\<exists>r' w'. schedule next_minute 40 one_off empty_world = Inr (True, r', w') \<and> is_scheduled r' w')
   \<and> (100 :: time) < 160
   \<and> schedule next_minute 160 one_off empty_world = Inr (False, one_off, empty_world)"
proof -
  have k: "JOB_TYPE one_off = ScheduledJob" and t: "scheduled_time one_off = Some 100"
    by (simp_all add: one_off_def)
  have free: "enabled one_off \<and> \<not> is_scheduled one_off empty_world"
    by (simp add: one_off_def is_scheduled_def)
  show ?thesis
    using schedule_fixed_instant[OF k t, of empty_world 40 next_minute]
      schedule_fixed_instant[OF k t, of empty_world 160 next_minute] k t free
    by simp
qed

text \<open>
  Claim C6. When the eligibility check fails, \<open>schedule()\<close> is to answer \<open>False\<close> and to
  change no field of the record. \<open>RepeatableJob.ready_for_schedule\<close> writes
  \<open>scheduled_time\<close> and \<open>repeat\<close> at lines 285 and 286 and only then, at line 288,
  compares the new \<open>scheduled_time\<close> with the clock. Two inputs on which it answers
  \<open>False\<close> after it has written. The job of every minute with three repeats left, one
  microsecond before its first minute is over at lines 282 and 283 and one microsecond
  after it at line 288. And, with the clock standing still, a job of every day with
  three repeats left, due at 12:00 of 2024-03-09 in New York, at 16:30 UTC of the next
  day: the day that line 285 adds on the wall clock is 23 hours long, and 12:00 of
  2024-03-10 in New York is 16:00 UTC. In both \<open>schedule()\<close> answers \<open>False\<close> and enqueues
  nothing, and the record has a new \<open>scheduled_time\<close> and one repeat fewer.
\<close>

theorem schedule_ineligible_changes_record:
  "schedule_RepeatableJob_src 1700000059999999 1700000059999999 1700000060000001
       (in_utc 1700000000000000) (every 1 minutes (Some 3)) empty_world =
     Inr (False, in_utc 1700000060000000, (every 1 minutes (Some 3))\<lparr>repeat := Some 2\<rparr>, empty_world)
   \<and> in_utc 1700000060000000 \<noteq> in_utc 1700000000000000
   \<and> repeat ((every 1 minutes (Some 3))\<lparr>repeat := Some 2\<rparr>) \<noteq> repeat (every 1 minutes (Some 3))
   \<and> schedule_RepeatableJob_src 1710088200000000 1710088200000000 1710088200000000
       (in_new_york 1709985600000000 False) (every 1 days (Some 3)) empty_world =
     Inr (False, in_new_york 1710072000000000 False, (every 1 days (Some 3))\<lparr>repeat := Some 2\<rparr>,
          empty_world)
   \<and> instant (in_new_york 1709985600000000 False) = 1710003600000000
   \<and> instant (in_new_york 1710072000000000 False) = 1710086400000000
   \<and> repeat ((every 1 days (Some 3))\<lparr>repeat := Some 2\<rparr>) \<noteq> repeat (every 1 days (Some 3))"
proof -
  let ?r = "every 1 minutes (Some 3)"
  let ?d = "in_utc 1700000000000000"
  let ?s = "every 1 days (Some 3)"
  let ?e = "in_new_york 1709985600000000 False"
  have I: "interval_seconds ?r = 60" by (rule every_seconds)
  have J: "interval_seconds ?s = 86400" by (rule every_seconds)
  have ny: "instant ?e = 1710003600000000"
    "instant (in_new_york 1710072000000000 False) = 1710086400000000"
    "wall ?e = 1709985600000000"
    by (simp_all add: instant_in_new_york new_york_2024_def)
  have "ready_for_schedule_RepeatableJob_src 1700000059999999 1700000059999999 1700000060000001
         ?d ?r empty_world =
     Inr (\<not> instant (?d\<lparr>wall := wall ?d + 1 * int (interval_seconds ?r) * 1000000,
                          fold := False\<rparr>) < 1700000060000001,
          ?d\<lparr>wall := wall ?d + 1 * int (interval_seconds ?r) * 1000000, fold := False\<rparr>,
          ?r\<lparr>repeat := (case Some 3 of None \<Rightarrow> None | Some m \<Rightarrow> Some (nat (int m - 1)))\<rparr>)"
    by (rule ready_src_at[where k="Some 3" and g=1])
       (simp_all del: One_nat_def add: I instant_in_utc gap_minute_nearly_over datetime_min_def datetime_max_def)
  then have "ready_for_schedule_RepeatableJob_src 1700000059999999 1700000059999999 1700000060000001
         ?d ?r empty_world = Inr (False, in_utc 1700000060000000, ?r\<lparr>repeat := Some 2\<rparr>)"
    unfolding I instant_in_utc in_utc_advance by (simp add: instant_in_utc)
  then have race: "schedule_RepeatableJob_src 1700000059999999 1700000059999999 1700000060000001
       ?d ?r empty_world = Inr (False, in_utc 1700000060000000, ?r\<lparr>repeat := Some 2\<rparr>, empty_world)"
    by (rule schedule_src_not_ready)
  have "ready_for_schedule_RepeatableJob_src 1710088200000000 1710088200000000 1710088200000000
         ?e ?s empty_world =
     Inr (\<not> instant (?e\<lparr>wall := wall ?e + 1 * int (interval_seconds ?s) * 1000000,
                          fold := False\<rparr>) < 1710088200000000,
          ?e\<lparr>wall := wall ?e + 1 * int (interval_seconds ?s) * 1000000, fold := False\<rparr>,
          ?s\<lparr>repeat := (case Some 3 of None \<Rightarrow> None | Some m \<Rightarrow> Some (nat (int m - 1)))\<rparr>)"
    by (rule ready_src_at[where k="Some 3" and g=1])
       (simp_all del: One_nat_def add: J ny gap_across_spring_change datetime_min_def datetime_max_def)
  then have "ready_for_schedule_RepeatableJob_src 1710088200000000 1710088200000000 1710088200000000
         ?e ?s empty_world = Inr (False, in_new_york 1710072000000000 False, ?s\<lparr>repeat := Some 2\<rparr>)"
    unfolding J ny in_new_york_advance by (simp add: ny)
  then have dst: "schedule_RepeatableJob_src 1710088200000000 1710088200000000 1710088200000000
       ?e ?s empty_world =
     Inr (False, in_new_york 1710072000000000 False, ?s\<lparr>repeat := Some 2\<rparr>, empty_world)"
    by (rule schedule_src_not_ready)
  have "in_utc 1700000060000000 \<noteq> ?d" "repeat (?r\<lparr>repeat := Some 2\<rparr>) \<noteq> repeat ?r"
    "repeat (?s\<lparr>repeat := Some 2\<rparr>) \<noteq> repeat ?s"
    by (simp_all add: in_utc_def every_fields)
  with race dst ny(1,2) show ?thesis by blast
qed

section \<open>The reconciliation callback\<close>



section \<open>Validation of the result TTL\<close>

text \<open>
  Claim C8. \<open>clean_result_ttl\<close> is to reject a record with repeats left whose
  \<open>result_ttl\<close> is neither indefinite (\<open>-1\<close>) nor as long as the interval, \<open>0\<close> included.
  The source tests \<open>self.result_ttl\<close> for truth, and \<open>0\<close> is false: a job of every minute
  with three repeats left and \<open>result_ttl = 0\<close> passes.
\<close>

theorem clean_result_ttl_accepts_zero:
  "repeat (every_minute\<lparr>result_ttl := Some 0\<rparr>) = Some 3
   \<and> result_ttl (every_minute\<lparr>result_ttl := Some 0\<rparr>) = Some 0
   \<and> (0 :: int) \<noteq> - 1
   \<and> (0 :: int) < int (interval_seconds (every_minute\<lparr>result_ttl := Some 0\<rparr>))
   \<and> clean_result_ttl (every_minute\<lparr>result_ttl := Some 0\<rparr>) = Inr ()"
  by (simp add: clean_result_ttl_def truthy_int_def every_minute_def interval_seconds_def)

section \<open>The scheduled time and the time line\<close>

text \<open>
  Claim C9. The scheduled time of an interval job is to move forward only. Line 285 adds
  the intervals to the wall-clock reading of \<open>scheduled_time\<close> in its own zone, and the sum
  has \<open>fold = 0\<close>. A job of every quarter of an hour is due at 01:10 of 2024-11-03 in New
  York, in the second of the two hours of that name (\<open>fold = 1\<close>), which is 06:10 UTC. At
  06:20 UTC \<open>ready_for_schedule\<close> moves it to 01:25 in the first of the two hours, which
  is 05:25 UTC: the wall clock reads 15 minutes more, and the instant is 45 minutes
  earlier than it was.
\<close>

theorem scheduled_time_moves_back:
  "instant (in_new_york 1730596200000000 True) = 1730614200000000
   \<and> instant (in_new_york 1730596200000000 True) < 1730614800000000
   \<and> interval_seconds (every 15 minutes None) = 900
   \<and> ready_for_schedule_RepeatableJob_src 1730614800000000 1730614800000000 1730614800000000
       (in_new_york 1730596200000000 True) (every 15 minutes None) empty_world =
     Inr (False, in_new_york 1730597100000000 False, every 15 minutes None)
   \<and> wall (in_new_york 1730597100000000 False) = wall (in_new_york 1730596200000000 True) + 900000000
   \<and> instant (in_new_york 1730597100000000 False) = 1730611500000000
   \<and> instant (in_new_york 1730597100000000 False) < instant (in_new_york 1730596200000000 True)"
proof -
  let ?r = "every 15 minutes None"
  let ?d = "in_new_york 1730596200000000 True"
  have I: "interval_seconds ?r = 900" by (rule every_seconds)
  have ny: "instant ?d = 1730614200000000"
    "instant (in_new_york 1730597100000000 False) = 1730611500000000"
    "wall ?d = 1730596200000000" "wall (in_new_york 1730597100000000 False) = 1730597100000000"
    by (simp_all add: instant_in_new_york new_york_2024_def)
  have "ready_for_schedule_RepeatableJob_src 1730614800000000 1730614800000000 1730614800000000
         ?d ?r empty_world =
     Inr (\<not> instant (?d\<lparr>wall := wall ?d + 1 * int (interval_seconds ?r) * 1000000,
                          fold := False\<rparr>) < 1730614800000000,
          ?d\<lparr>wall := wall ?d + 1 * int (interval_seconds ?r) * 1000000, fold := False\<rparr>,
          ?r\<lparr>repeat := (case None :: nat option of None \<Rightarrow> None
                         | Some m \<Rightarrow> Some (nat (int m - 1)))\<rparr>)"
    by (rule ready_src_at[where k=None and g=1])
       (simp_all del: One_nat_def add: I ny gap_in_second_hour datetime_min_def datetime_max_def)
  then have "ready_for_schedule_RepeatableJob_src 1730614800000000 1730614800000000 1730614800000000
         ?d ?r empty_world = Inr (False, in_new_york 1730597100000000 False, ?r)"
    unfolding I ny in_new_york_advance by (simp add: ny every_def)
  moreover have "instant ?d < 1730614800000000"
    "wall (in_new_york 1730597100000000 False) = wall ?d + 900000000"
    "instant (in_new_york 1730597100000000 False) < instant ?d"
    by (simp_all add: ny)
  ultimately show ?thesis using I ny(1,2) by blast
qed

section \<open>A fixed-instant job without an instant\<close>

text \<open>
  Claim C10. For a fixed-instant job whose \<open>scheduled_time\<close> is \<open>None\<close> the comparison
  with \<open>now\<close> is skipped: \<open>ready_for_schedule\<close> answers \<open>True\<close> exactly when the record
  is enabled and not already scheduled.
\<close>

theorem ScheduledJob_without_time_ready:
  assumes "JOB_TYPE r = ScheduledJob" and "scheduled_time r = None"
  shows "ready_for_schedule now r w = Inr (enabled r \<and> \<not> is_scheduled r w, r)"
proof -
  have "ready_for_schedule_ScheduledJob now r w = ready_for_schedule_BaseJob r w"
    using assms(2) by (simp add: ready_for_schedule_ScheduledJob_def)
  moreover have "ready_for_schedule_BaseJob r w = (enabled r \<and> \<not> is_scheduled r w)"
    by (auto simp: ready_for_schedule_BaseJob_def)
  ultimately show ?thesis using assms(1) by (simp add: ready_for_schedule_def)
qed

theorem ScheduledJob_without_time_ready_witness:
  "JOB_TYPE (one_off\<lparr>scheduled_time := None\<rparr>) = ScheduledJob
   \<and> scheduled_time (one_off\<lparr>scheduled_time := None\<rparr>) = None
   \<and> ready_for_schedule 160 (one_off\<lparr>scheduled_time := None\<rparr>) empty_world =
       Inr (True, one_off\<lparr>scheduled_time := None\<rparr>)"
proof -
  let ?r = "one_off\<lparr>scheduled_time := None\<rparr>"
  have k: "JOB_TYPE ?r = ScheduledJob" and t: "scheduled_time ?r = None"
    by (simp_all add: one_off_def)
  have "enabled ?r \<and> \<not> is_scheduled ?r empty_world"
    by (simp add: one_off_def is_scheduled_def)
  then show ?thesis
    using ScheduledJob_without_time_ready[OF k t, of 160 empty_world] k t by simp
qed

end
